theory Spec2Isabelle
  imports Main "HOL-Library.AList" "HOL-Library.Sublist"
begin

section \<open>The knowledge tree of \<open>code_knowledge_server.py\<close>\<close>

text \<open>
  The server keeps one JSON file per code element in the directory \<open>elements/\<close> and
  maintains, for every element, the list of elements it depends on and the list of
  elements that depend on it. The tools are embedded as functions on an explicit state.

  Modelling decisions:
  \<^item> Python \<open>str\<close> is \<open>string\<close>, read as the bytes of the UTF-8 encoding.
  \<^item> The directory is an association list from file stem to the record stored in the
    file, in the order in which \<open>glob\<close> lists the files (an order the source does not
    depend on). Every string is taken to be usable as a file stem, so reading and writing
    files never raises; the \<open>except Exception\<close> branches of the tools are then unreachable
    and have no counterpart here.
  \<^item> \<open>datetime.now().isoformat()\<close> is a sequence of readings held in the state together
    with the number of readings consumed by \<open>save_element\<close>.
  \<^item> \<open>metadata.json\<close> is written by \<open>update_metadata\<close> and read by nothing but
    \<open>update_metadata\<close> itself; it is left out.
  \<^item> A tool returns a dictionary with a \<open>success\<close> flag; an unsuccessful result is
    \<open>Inl\<close> of a \<open>failure\<close>, a successful one \<open>Inr\<close> of a record of the reported values.
\<close>

subsection \<open>Elements and the store\<close>

record CodeElement =
  ce_id :: string
  ce_type :: string
  code :: string
  description :: string
  dependencies :: "string list"
  dependents :: "string list"
  source_file :: "string option"
  line_range :: "string option"
  created_at :: string
  updated_at :: string

record knowledge_base =
  elements_dir :: "(string \<times> CodeElement) list"
  datetime_now :: "nat \<Rightarrow> string"
  readings :: nat

text \<open>The argument \<open>dependencies\<close> of a tool: a list of ids, or one bare id.\<close>

datatype deps_arg = DepList "string list" | DepStr string

datatype failure =
    AlreadyExists string string string
  | NotFound string
  | InvalidOperation string
  | NoFieldsProvided

definition load_element :: "knowledge_base \<Rightarrow> string \<Rightarrow> CodeElement option" where
  "load_element kb element_id = map_of (elements_dir kb) element_id"

text \<open>
  \<open>save_element\<close> stamps the element it is given (the caller's object is mutated, so the
  stamped element is returned with the new state) and writes it to the file named by its id.
\<close>

definition save_element :: "CodeElement \<Rightarrow> knowledge_base \<Rightarrow> CodeElement \<times> knowledge_base" where
  "save_element element kb =
     (let e1 = element\<lparr>updated_at := datetime_now kb (readings kb)\<rparr>;
          e2 = (if created_at e1 = [] then e1\<lparr>created_at := updated_at e1\<rparr> else e1)
      in (e2, kb\<lparr>elements_dir := AList.update (ce_id e2) e2 (elements_dir kb),
                 readings := Suc (readings kb)\<rparr>))"

definition get_all_elements :: "knowledge_base \<Rightarrow> CodeElement list" where
  "get_all_elements kb = List.map_filter (load_element kb) (map fst (elements_dir kb))"

text \<open>
  The files a run of the server leaves behind: one file per stem, holding the record
  whose id is the stem.
\<close>

definition wf_store :: "knowledge_base \<Rightarrow> bool" where
  "wf_store kb \<longleftrightarrow>
     distinct (map fst (elements_dir kb)) \<and>
     list_all (\<lambda>(k, e). ce_id e = k) (elements_dir kb)"

subsection \<open>Strings\<close>

text \<open>
  \<open>str.strip()\<close> removes leading and trailing whitespace. On ASCII, \<open>str.isspace\<close> holds of
  tab, line feed, vertical tab, form feed, carriage return, the separators 0x1C to 0x1F
  and the space; whitespace beyond ASCII is not covered.
\<close>

definition isspace :: "char \<Rightarrow> bool" where
  "isspace c \<longleftrightarrow> c \<in> set [CHR 0x09, CHR 0x0A, CHR 0x0B, CHR 0x0C, CHR 0x0D,
                            CHR 0x1C, CHR 0x1D, CHR 0x1E, CHR 0x1F, CHR 0x20]"

definition strip :: "string \<Rightarrow> string" where
  "strip s = rev (dropWhile isspace (rev (dropWhile isspace s)))"

subsection \<open>Updating the dependents of referenced elements\<close>

text \<open>
  The loop shared by \<open>add_code_element\<close>, \<open>edit_dependencies\<close> and \<open>update_code_element\<close>:
  every dependency that has a record gains \<open>element_id\<close> in its dependents unless it is
  there already; the dependencies are sorted into existing and missing ones.
\<close>

fun add_to_dependents ::
  "string \<Rightarrow> string list \<Rightarrow> knowledge_base \<Rightarrow> string list \<times> string list \<times> knowledge_base" where
  "add_to_dependents element_id [] kb = ([], [], kb)"
| "add_to_dependents element_id (dep_id # rest) kb =
     (case load_element kb dep_id of
        Some dep_element \<Rightarrow>
          (let kb1 = (if element_id \<notin> set (dependents dep_element)
                      then snd (save_element
                             (dep_element\<lparr>dependents := dependents dep_element @ [element_id]\<rparr>) kb)
                      else kb);
               (existing, missing, kb2) = add_to_dependents element_id rest kb1
           in (dep_id # existing, missing, kb2))
      | None \<Rightarrow>
          (let (existing, missing, kb2) = add_to_dependents element_id rest kb
           in (existing, dep_id # missing, kb2)))"

text \<open>
  The clean-up loop of \<open>edit_dependencies\<close> and \<open>update_code_element\<close>: every old
  dependency that is not among the new ones loses \<open>element_id\<close> from its dependents
  (\<open>list.remove\<close> deletes the first occurrence).
\<close>

fun remove_from_dependents ::
  "string \<Rightarrow> string list \<Rightarrow> string list \<Rightarrow> knowledge_base \<Rightarrow> knowledge_base" where
  "remove_from_dependents element_id new_deps [] kb = kb"
| "remove_from_dependents element_id new_deps (old_dep # rest) kb =
     (if old_dep \<notin> set new_deps
      then (case load_element kb old_dep of
              Some old_dep_element \<Rightarrow>
                (if element_id \<in> set (dependents old_dep_element)
                 then remove_from_dependents element_id new_deps rest
                        (snd (save_element
                           (old_dep_element\<lparr>dependents :=
                              remove1 element_id (dependents old_dep_element)\<rparr>) kb))
                 else remove_from_dependents element_id new_deps rest kb)
            | None \<Rightarrow> remove_from_dependents element_id new_deps rest kb)
      else remove_from_dependents element_id new_deps rest kb)"

subsection \<open>\<open>add_code_element\<close>\<close>

record dependency_analysis =
  existing_dependencies :: "string list"
  missing_dependencies :: "string list"
  missing_count :: nat

record add_result =
  added_element :: CodeElement
  total_dependencies :: nat
  add_analysis :: dependency_analysis

text \<open>\<open>dependencies or []\<close>, then a bare id becomes a one-element list.\<close>

fun deps_or_empty :: "deps_arg option \<Rightarrow> string list" where
  "deps_or_empty None = []"
| "deps_or_empty (Some (DepList ds)) = ds"
| "deps_or_empty (Some (DepStr d)) = (if d = [] then [] else [d])"

definition or_None :: "string \<Rightarrow> string option" where
  "or_None s = (if s = [] then None else Some s)"

text \<open>The record built by \<open>add_code_element\<close> before it is saved.\<close>

definition new_element ::
  "string \<Rightarrow> string \<Rightarrow> string \<Rightarrow> string \<Rightarrow> string list \<Rightarrow> string \<Rightarrow> string \<Rightarrow> CodeElement" where
  "new_element element_id element_type code_arg description_arg deps_list
     source_file_arg line_range_arg =
     \<lparr>ce_id = element_id, ce_type = element_type, code = strip code_arg,
      description = description_arg, dependencies = deps_list, dependents = [],
      source_file = or_None source_file_arg, line_range = or_None line_range_arg,
      created_at = [], updated_at = []\<rparr>"

definition add_code_element ::
  "string \<Rightarrow> string \<Rightarrow> string \<Rightarrow> string \<Rightarrow> deps_arg option \<Rightarrow> string \<Rightarrow> string \<Rightarrow>
   knowledge_base \<Rightarrow> (failure + add_result) \<times> knowledge_base" where
  "add_code_element element_id element_type code_arg description_arg dependencies_arg
     source_file_arg line_range_arg kb =
     (case load_element kb element_id of
        Some existing \<Rightarrow>
          (Inl (AlreadyExists (ce_id existing) (ce_type existing) (description existing)), kb)
      | None \<Rightarrow>
          (let deps_list = deps_or_empty dependencies_arg;
               element = new_element element_id element_type code_arg description_arg
                           deps_list source_file_arg line_range_arg;
               (element1, kb1) = save_element element kb;
               (existing_deps, missing_deps, kb2) = add_to_dependents element_id deps_list kb1
           in (Inr \<lparr>added_element = element1,
                    total_dependencies = length deps_list,
                    add_analysis = \<lparr>existing_dependencies = existing_deps,
                                     missing_dependencies = missing_deps,
                                     missing_count = length missing_deps\<rparr>\<rparr>, kb2)))"

subsection \<open>\<open>edit_dependencies\<close>\<close>

record edit_result =
  edited_element :: CodeElement
  operation_done :: string
  original_dependencies :: "string list"
  new_dependencies :: "string list"
  edit_analysis :: dependency_analysis

text \<open>Mode \<open>add\<close>: each id of the input not yet in the list is appended.\<close>

primrec add_deps :: "string list \<Rightarrow> string list \<Rightarrow> string list" where
  "add_deps [] current = current"
| "add_deps (dep # rest) current =
     add_deps rest (if dep \<notin> set current then current @ [dep] else current)"

text \<open>Mode \<open>remove\<close>: for each id of the input that is in the list, \<open>list.remove\<close>.\<close>

primrec remove_deps :: "string list \<Rightarrow> string list \<Rightarrow> string list" where
  "remove_deps [] current = current"
| "remove_deps (dep # rest) current =
     remove_deps rest (if dep \<in> set current then remove1 dep current else current)"

fun as_list :: "deps_arg \<Rightarrow> string list" where
  "as_list (DepList ds) = ds"
| "as_list (DepStr d) = [d]"

text \<open>
  What \<open>edit_dependencies\<close> does once the new list is in the element: save it, clean
  up the dependents of the dependencies that were dropped, update those of the new list.
\<close>

definition save_and_relink ::
  "string \<Rightarrow> string \<Rightarrow> string list \<Rightarrow> CodeElement \<Rightarrow> knowledge_base \<Rightarrow>
   (failure + edit_result) \<times> knowledge_base" where
  "save_and_relink element_id operation original_deps element kb =
     (let (element1, kb1) = save_element element kb;
          kb2 = remove_from_dependents element_id (dependencies element1) original_deps kb1;
          (existing_deps, missing_deps, kb3) =
             add_to_dependents element_id (dependencies element1) kb2
      in (Inr \<lparr>edited_element = element1, operation_done = operation,
               original_dependencies = original_deps,
               new_dependencies = dependencies element1,
               edit_analysis = \<lparr>existing_dependencies = existing_deps,
                                 missing_dependencies = missing_deps,
                                 missing_count = length missing_deps\<rparr>\<rparr>, kb3))"

definition edit_dependencies ::
  "string \<Rightarrow> deps_arg \<Rightarrow> string \<Rightarrow> knowledge_base \<Rightarrow> (failure + edit_result) \<times> knowledge_base" where
  "edit_dependencies element_id dependencies_arg operation kb =
     (case load_element kb element_id of
        None \<Rightarrow> (Inl (NotFound element_id), kb)
      | Some element \<Rightarrow>
          (let deps = as_list dependencies_arg;
               original_deps = dependencies element
           in if operation = ''replace'' then
                save_and_relink element_id operation original_deps
                  (element\<lparr>dependencies := deps\<rparr>) kb
              else if operation = ''add'' then
                save_and_relink element_id operation original_deps
                  (element\<lparr>dependencies := add_deps deps (dependencies element)\<rparr>) kb
              else if operation = ''remove'' then
                save_and_relink element_id operation original_deps
                  (element\<lparr>dependencies := remove_deps deps (dependencies element)\<rparr>) kb
              else (Inl (InvalidOperation operation), kb)))"

subsection \<open>\<open>get_element\<close> and \<open>find_missing_dependencies\<close>\<close>

definition get_element :: "string \<Rightarrow> knowledge_base \<Rightarrow> failure + CodeElement" where
  "get_element element_id kb =
     (case load_element kb element_id of
        None \<Rightarrow> Inl (NotFound element_id)
      | Some element \<Rightarrow> Inr element)"







subsection \<open>\<open>get_knowledge_tree_view\<close>\<close>

text \<open>The prefix of a tree line: the box-drawing characters U+251C U+2500 U+2500 and a space.\<close>

definition branch :: string where
  "branch = [CHR 0xE2, CHR 0x94, CHR 0x9C, CHR 0xE2, CHR 0x94, CHR 0x80,
             CHR 0xE2, CHR 0x94, CHR 0x80, CHR 0x20]"

definition indent :: "nat \<Rightarrow> string" where
  "indent depth = concat (replicate depth ''  '')"

text \<open>
  \<open>build_tree_recursive\<close> is local to the tool and reads its \<open>all_elements\<close> and
  \<open>max_depth\<close>. The set \<open>visited\<close> it receives is a copy made by the caller, so adding
  \<open>element_id\<close> to it is seen by the calls below this one only.
\<close>

function build_tree_recursive ::
  "(string \<times> CodeElement) list \<Rightarrow> int \<Rightarrow> string \<Rightarrow> nat \<Rightarrow> string set \<Rightarrow> string list" where
  "build_tree_recursive all_elements max_depth element_id depth visited =
     (if int depth > max_depth \<or> element_id \<in> visited then []
      else (case map_of all_elements element_id of
              None \<Rightarrow> [indent depth @ branch @ element_id @ '' [MISSING]'']
            | Some element \<Rightarrow>
                (indent depth @ (if depth > 0 then branch else []) @ ce_id element @
                   '' ['' @ ce_type element @ ''] - '' @ description element) #
                concat (map (\<lambda>dep_id. build_tree_recursive all_elements max_depth dep_id
                                         (Suc depth) (insert element_id visited))
                            (dependencies element))))"
  by pat_completeness auto
termination
proof (relation "measure (\<lambda>(all_elements, max_depth, element_id, depth, visited).
                   card (fst ` set all_elements - visited))")
  show "wf (measure (\<lambda>(all_elements, max_depth, element_id, depth, visited).
              card (fst ` set all_elements - visited)))"
    by simp
next
  fix all_elements :: "(string \<times> CodeElement) list"
  fix max_depth :: int and element_id :: string and depth :: nat
  fix visited :: "string set" and element :: CodeElement and dep_id :: string
  assume go: "\<not> (max_depth < int depth \<or> element_id \<in> visited)"
    and stored: "map_of all_elements element_id = Some element"
  from stored have "element_id \<in> fst ` set all_elements"
    by (metis map_of_SomeD fst_conv image_eqI)
  with go have "fst ` set all_elements - insert element_id visited
                  \<subset> fst ` set all_elements - visited"
    by auto
  then have "card (fst ` set all_elements - insert element_id visited)
               < card (fst ` set all_elements - visited)"
    by (intro psubset_card_mono) auto
  then show "((all_elements, max_depth, dep_id, Suc depth, insert element_id visited),
              (all_elements, max_depth, element_id, depth, visited))
             \<in> measure (\<lambda>(all_elements, max_depth, element_id, depth, visited).
                   card (fst ` set all_elements - visited))"
    by simp
qed

declare build_tree_recursive.simps [simp del]

text \<open>
  The same recursion with the nesting of the Python calls counted: \<open>None\<close> when more than
  \<open>frames\<close> nested calls would be needed.
\<close>

fun build_tree_bounded ::
  "nat \<Rightarrow> (string \<times> CodeElement) list \<Rightarrow> int \<Rightarrow> string \<Rightarrow> nat \<Rightarrow> string set \<Rightarrow>
   string list option" where
  "build_tree_bounded 0 all_elements max_depth element_id depth visited = None"
| "build_tree_bounded (Suc frames) all_elements max_depth element_id depth visited =
     (if int depth > max_depth \<or> element_id \<in> visited then Some []
      else (case map_of all_elements element_id of
              None \<Rightarrow> Some [indent depth @ branch @ element_id @ '' [MISSING]'']
            | Some element \<Rightarrow>
                map_option
                  (\<lambda>below. (indent depth @ (if depth > 0 then branch else []) @ ce_id element @
                              '' ['' @ ce_type element @ ''] - '' @ description element) #
                           concat below)
                  (those (map (\<lambda>dep_id. build_tree_bounded frames all_elements max_depth dep_id
                                           (Suc depth) (insert element_id visited))
                              (dependencies element)))))"







subsection \<open>\<open>update_code_element\<close>\<close>

record update_result =
  updated_fields :: "string list"
  updated_element :: CodeElement
  update_analysis :: "(string list \<times> string list \<times> dependency_analysis) option"

text \<open>
  The element loaded on entry is changed in memory and saved at the very end, after the
  dependents of its old and new dependencies have been written.
\<close>

definition update_code_element ::
  "string \<Rightarrow> string \<Rightarrow> string \<Rightarrow> deps_arg option \<Rightarrow> string \<Rightarrow> string \<Rightarrow>
   knowledge_base \<Rightarrow> (failure + update_result) \<times> knowledge_base" where
  "update_code_element element_id code_arg description_arg dependencies_arg
     source_file_arg line_range_arg kb =
     (case load_element kb element_id of
        None \<Rightarrow> (Inl (NotFound element_id), kb)
      | Some element \<Rightarrow>
          (let original_deps = dependencies element;
               (e1, f1) = (if strip code_arg \<noteq> []
                           then (element\<lparr>code := strip code_arg\<rparr>, [''code''])
                           else (element, []));
               (e2, f2) = (if strip description_arg \<noteq> []
                           then (e1\<lparr>description := description_arg\<rparr>, f1 @ [''description''])
                           else (e1, f1));
               (e3, f3) = (if strip source_file_arg \<noteq> []
                           then (e2\<lparr>source_file := Some source_file_arg\<rparr>, f2 @ [''source_file''])
                           else (e2, f2));
               (e4, f4) = (if strip line_range_arg \<noteq> []
                           then (e3\<lparr>line_range := Some line_range_arg\<rparr>, f3 @ [''line_range''])
                           else (e3, f3));
               (e5, f5, analysis, kb2) =
                  (case dependencies_arg of
                     None \<Rightarrow> (e4, f4, None, kb)
                   | Some given \<Rightarrow>
                       (let deps = as_list given;
                            kb1 = remove_from_dependents element_id deps original_deps kb;
                            (existing_deps, missing_deps, kb2) =
                               add_to_dependents element_id deps kb1
                        in (e4\<lparr>dependencies := deps\<rparr>, f4 @ [''dependencies''],
                            Some (original_deps, deps,
                                  \<lparr>existing_dependencies = existing_deps,
                                   missing_dependencies = missing_deps,
                                   missing_count = length missing_deps\<rparr>),
                            kb2)))
           in if f5 = [] then (Inl NoFieldsProvided, kb)
              else (let (e6, kb3) = save_element e5 kb2
                    in (Inr \<lparr>updated_fields = f5, updated_element = e6,
                             update_analysis = analysis\<rparr>, kb3))))"

subsection \<open>\<open>remove_element\<close>\<close>

record remove_result =
  cleaned_references :: "string list"
  dependencies_removed :: "string list"
  dependents_updated :: "string list"

text \<open>
  The body of the scan for one element other than the removed one: if it lists
  \<open>element_id\<close> among its dependencies it loses the first occurrence (\<open>list.remove\<close>) and
  is saved; then the same for its dependents, on the object as the first write left it.
\<close>

definition clean_one ::
  "string \<Rightarrow> CodeElement \<Rightarrow> knowledge_base \<Rightarrow> string list \<times> knowledge_base" where
  "clean_one element_id other_element kb =
     (let (o1, kb1, r1) =
            (if element_id \<in> set (dependencies other_element)
             then (let (saved, kb') = save_element
                          (other_element\<lparr>dependencies :=
                             remove1 element_id (dependencies other_element)\<rparr>) kb
                   in (saved, kb', [ce_id other_element @ '' (removed from dependencies)'']))
             else (other_element, kb, []));
          (o2, kb2, r2) =
            (if element_id \<in> set (dependents o1)
             then (let (saved, kb') = save_element
                          (o1\<lparr>dependents := remove1 element_id (dependents o1)\<rparr>) kb1
                   in (saved, kb', [ce_id o1 @ '' (removed from dependents)'']))
             else (o1, kb1, []))
      in (r1 @ r2, kb2))"

text \<open>The scan over the elements that were loaded before the first write.\<close>

fun clean_references ::
  "string \<Rightarrow> CodeElement list \<Rightarrow> knowledge_base \<Rightarrow> string list \<times> knowledge_base" where
  "clean_references element_id [] kb = ([], kb)"
| "clean_references element_id (other_element # rest) kb =
     (if ce_id other_element = element_id then clean_references element_id rest kb
      else
        (let (touched, kb1) = clean_one element_id other_element kb;
             (updated, kb2) = clean_references element_id rest kb1
         in (touched @ updated, kb2)))"

definition remove_element ::
  "string \<Rightarrow> knowledge_base \<Rightarrow> (failure + remove_result) \<times> knowledge_base" where
  "remove_element element_id kb =
     (case load_element kb element_id of
        None \<Rightarrow> (Inl (NotFound element_id), kb)
      | Some element \<Rightarrow>
          (let (updated_elements, kb1) = clean_references element_id (get_all_elements kb) kb
           in (Inr \<lparr>cleaned_references = updated_elements,
                    dependencies_removed = dependencies element,
                    dependents_updated = dependents element\<rparr>,
               kb1\<lparr>elements_dir := AList.delete element_id (elements_dir kb1)\<rparr>)))"

subsection \<open>Reciprocity\<close>

text \<open>
  The invariant of the data model on the stored records: \<open>B\<close> is among the dependencies of
  \<open>A\<close> exactly when \<open>A\<close> is among the dependents of \<open>B\<close>, for all \<open>A\<close> and \<open>B\<close> that have a
  record.
\<close>

definition reciprocal :: "knowledge_base \<Rightarrow> bool" where
  "reciprocal kb \<longleftrightarrow>
     list_all (\<lambda>(a, ea). list_all (\<lambda>(b, eb).
         (b \<in> set (dependencies ea)) = (a \<in> set (dependents eb)))
       (elements_dir kb)) (elements_dir kb)"

text \<open>
  The fields of a record that neither a change of its dependents nor the stamping of
  \<open>save_element\<close> touches.
\<close>

definition stable :: "(CodeElement \<Rightarrow> 'a) \<Rightarrow> bool" where
  "stable f \<longleftrightarrow>
     (\<forall>e ds t. f (e\<lparr>dependents := ds\<rparr>) = f e \<and> f (e\<lparr>updated_at := t\<rparr>) = f e \<and>
               f (e\<lparr>created_at := t\<rparr>) = f e)"

subsection \<open>The words of the specification\<close>

text \<open>
  Mode \<open>add\<close> in the words of the specification: the ids of the input that are not yet
  seen, in input order, each once.
\<close>

primrec unseen_in_order :: "string set \<Rightarrow> string list \<Rightarrow> string list" where
  "unseen_in_order seen [] = []"
| "unseen_in_order seen (d # ds) =
     (if d \<in> seen then unseen_in_order seen ds else d # unseen_in_order (insert d seen) ds)"

text \<open>Mode \<open>remove\<close> in the words of the specification: the set difference, in order.\<close>

definition set_difference :: "string list \<Rightarrow> string list \<Rightarrow> string list" where
  "set_difference deps removed = filter (\<lambda>d. d \<notin> set removed) deps"


subsection \<open>Example stores\<close>

definition clock :: "nat \<Rightarrow> string" where
  "clock n = replicate (Suc n) CHR ''t''"

definition empty_kb :: knowledge_base where
  "empty_kb = \<lparr>elements_dir = [], datetime_now = clock, readings = 0\<rparr>"

definition elem :: "string \<Rightarrow> string list \<Rightarrow> string list \<Rightarrow> CodeElement" where
  "elem i deps depts =
     \<lparr>ce_id = i, ce_type = ''function'', code = ''pass'', description = ''d'',
      dependencies = deps, dependents = depts, source_file = None, line_range = None,
      created_at = ''t'', updated_at = ''t''\<rparr>"

definition store_of :: "CodeElement list \<Rightarrow> knowledge_base" where
  "store_of es = \<lparr>elements_dir = map (\<lambda>e. (ce_id e, e)) es, datetime_now = clock,
                  readings = length es\<rparr>"

text \<open>An element that names a dependency before the dependency is added.\<close>

definition kb_a :: knowledge_base where
  "kb_a = snd (add_code_element ''a'' ''function'' ''f()'' ''first''
                 (Some (DepList [''ghost''])) [] [] empty_kb)"

definition kb_a_ghost :: knowledge_base where
  "kb_a_ghost =
     snd (add_code_element ''ghost'' ''function'' ''g()'' ''second'' None [] [] kb_a)"

text \<open>An element whose dependency list names the same id twice.\<close>

definition kb_twice_x :: knowledge_base where
  "kb_twice_x = snd (add_code_element ''a'' ''function'' ''f()'' ''first''
                       (Some (DepList [''x'', ''x''])) [] [] empty_kb)"


text \<open>One element without dependencies, and one that depends on itself.\<close>

definition kb_x :: knowledge_base where
  "kb_x = snd (add_code_element ''x'' ''function'' ''f()'' ''alone'' None [] [] empty_kb)"

definition kb_self :: knowledge_base where
  "kb_self = snd (add_code_element ''x'' ''function'' ''f()'' ''loop''
                    (Some (DepList [''x''])) [] [] empty_kb)"

text \<open>A cycle of two elements, and an element reached along two branches.\<close>

definition cycle_ab :: "(string \<times> CodeElement) list" where
  "cycle_ab = [(''a'', elem ''a'' [''b''] [''b'']), (''b'', elem ''b'' [''a''] [''a''])]"

definition diamond :: "(string \<times> CodeElement) list" where
  "diamond = [(''r'', elem ''r'' [''x'', ''y''] []), (''x'', elem ''x'' [''z''] [''r'']),
              (''y'', elem ''y'' [''z''] [''r'']), (''z'', elem ''z'' [] [''x'', ''y''])]"

section \<open>Properties\<close>

lemmas kb_defs = load_element_def save_element_def get_all_elements_def empty_kb_def
  store_of_def elem_def clock_def strip_def isspace_def or_None_def add_code_element_def
  new_element_def edit_dependencies_def save_and_relink_def update_code_element_def
  remove_element_def clean_one_def get_element_def reciprocal_def wf_store_def
  List.map_filter_def Let_def

subsection \<open>The store primitives\<close>

lemma save_element_fields [simp]:
  "ce_id (fst (save_element e kb)) = ce_id e"
  "ce_type (fst (save_element e kb)) = ce_type e"
  "code (fst (save_element e kb)) = code e"
  "description (fst (save_element e kb)) = description e"
  "dependencies (fst (save_element e kb)) = dependencies e"
  "dependents (fst (save_element e kb)) = dependents e"
  "source_file (fst (save_element e kb)) = source_file e"
  "line_range (fst (save_element e kb)) = line_range e"
  by (simp_all add: save_element_def Let_def)

lemma load_save_element:
  "load_element (snd (save_element e kb)) k =
     (if k = ce_id e then Some (fst (save_element e kb)) else load_element kb k)"
  by (simp add: save_element_def load_element_def Let_def update_conv')

lemma list_all_update:
  "list_all P al \<Longrightarrow> P (k, v) \<Longrightarrow> list_all P (AList.update k v al)"
  by (induction al) auto

lemma wf_store_save: "wf_store kb \<Longrightarrow> wf_store (snd (save_element e kb))"
  by (simp add: wf_store_def save_element_def Let_def distinct_update list_all_update)

lemma wf_store_id: "wf_store kb \<Longrightarrow> load_element kb k = Some e \<Longrightarrow> ce_id e = k"
  unfolding wf_store_def load_element_def list_all_iff
  by (auto dest!: map_of_SomeD)






lemma stable_fields [simp]:
  "stable ce_id" "stable ce_type" "stable code" "stable description" "stable dependencies"
  "stable source_file" "stable line_range"
  by (simp_all add: stable_def)

lemma stable_save: "stable f \<Longrightarrow> f (fst (save_element e kb)) = f e"
  by (simp add: stable_def save_element_def Let_def)

subsection \<open>The dependents loops\<close>

lemma wf_add_to_dependents:
  "wf_store kb \<Longrightarrow> wf_store (snd (snd (add_to_dependents element_id ds kb)))"
  by (induction ds arbitrary: kb) (auto simp: wf_store_save case_prod_beta Let_def split: option.splits)

lemma stable_add_to_dependents:
  "wf_store kb \<Longrightarrow> stable f \<Longrightarrow>
   map_option f (load_element (snd (snd (add_to_dependents element_id ds kb))) k)
     = map_option f (load_element kb k)"
proof (induction ds arbitrary: kb)
  case Nil
  then show ?case by simp
next
  case (Cons d ds)
  show ?case
  proof (cases "load_element kb d")
    case None
    with Cons show ?thesis by (simp add: case_prod_beta Let_def)
  next
    case (Some dep)
    with Cons.prems have id: "ce_id dep = d" by (simp add: wf_store_id)
    let ?kb1 = "snd (save_element (dep\<lparr>dependents := dependents dep @ [element_id]\<rparr>) kb)"
    have "map_option f (load_element ?kb1 k) = map_option f (load_element kb k)"
      using Cons.prems(2) Some id
      by (auto simp: load_save_element stable_save) (simp add: stable_def)
    moreover have "wf_store ?kb1" using Cons.prems(1) by (rule wf_store_save)
    ultimately show ?thesis
      using Some Cons.IH [of ?kb1] Cons.IH [of kb] Cons.prems
      by (simp add: case_prod_beta Let_def)
  qed
qed

lemma dependents_add_to_dependents:
  "wf_store kb \<Longrightarrow>
   map_option dependents (load_element (snd (snd (add_to_dependents element_id ds kb))) k)
     = map_option (\<lambda>e. if k \<in> set ds \<and> element_id \<notin> set (dependents e)
                         then dependents e @ [element_id] else dependents e)
         (load_element kb k)"
proof (induction ds arbitrary: kb)
  case Nil
  then show ?case by (simp add: option.map_ident)
next
  case (Cons d ds)
  show ?case
  proof (cases "load_element kb d")
    case None
    with Cons show ?thesis by (auto simp: case_prod_beta Let_def map_option_case split: option.splits)
  next
    case (Some dep)
    with Cons.prems have id: "ce_id dep = d" by (simp add: wf_store_id)
    let ?kb1 = "snd (save_element (dep\<lparr>dependents := dependents dep @ [element_id]\<rparr>) kb)"
    have wf1: "wf_store ?kb1" using Cons.prems(1) by (rule wf_store_save)
    show ?thesis
      using Some id Cons.IH [OF wf1] Cons.IH [OF Cons.prems]
      by (auto simp: load_save_element case_prod_beta Let_def map_option_case split: option.splits)
  qed
qed


lemma wf_remove_from_dependents:
  "wf_store kb \<Longrightarrow> wf_store (remove_from_dependents element_id new_deps old_deps kb)"
  by (induction old_deps arbitrary: kb) (auto simp: wf_store_save split: option.splits)

lemma stable_remove_from_dependents:
  "wf_store kb \<Longrightarrow> stable f \<Longrightarrow>
   map_option f (load_element (remove_from_dependents element_id new_deps old_deps kb) k)
     = map_option f (load_element kb k)"
proof (induction old_deps arbitrary: kb)
  case Nil
  then show ?case by simp
next
  case (Cons d ds)
  show ?case
  proof (cases "load_element kb d")
    case None
    with Cons show ?thesis by simp
  next
    case (Some dep)
    with Cons.prems have id: "ce_id dep = d" by (simp add: wf_store_id)
    let ?kb1 = "snd (save_element (dep\<lparr>dependents := remove1 element_id (dependents dep)\<rparr>) kb)"
    have "map_option f (load_element ?kb1 k) = map_option f (load_element kb k)"
      using Cons.prems(2) Some id
      by (auto simp: load_save_element stable_save) (simp add: stable_def)
    moreover have "wf_store ?kb1" using Cons.prems(1) by (rule wf_store_save)
    ultimately show ?thesis
      using Some Cons.IH [of ?kb1] Cons.IH [of kb] Cons.prems
      by simp
  qed
qed

subsection \<open>Adding an element\<close>


lemma add_code_element_fresh:
  assumes "load_element kb element_id = None"
  shows "add_code_element element_id element_type code_arg description_arg dependencies_arg
           source_file_arg line_range_arg kb =
         (let deps_list = deps_or_empty dependencies_arg;
              saved = save_element (new_element element_id element_type code_arg description_arg
                         deps_list source_file_arg line_range_arg) kb;
              linked = add_to_dependents element_id deps_list (snd saved)
          in (Inr \<lparr>added_element = fst saved, total_dependencies = length deps_list,
                   add_analysis = \<lparr>existing_dependencies = fst linked,
                                    missing_dependencies = fst (snd linked),
                                    missing_count = length (fst (snd linked))\<rparr>\<rparr>,
              snd (snd linked)))"
  using assms by (simp add: add_code_element_def new_element_def Let_def case_prod_beta)

lemma new_element_fields [simp]:
  "ce_id (new_element i t c d ds sf lr) = i"
  "ce_type (new_element i t c d ds sf lr) = t"
  "description (new_element i t c d ds sf lr) = d"
  "dependencies (new_element i t c d ds sf lr) = ds"
  "dependents (new_element i t c d ds sf lr) = []"
  by (simp_all add: new_element_def)

subsection \<open>The report of missing dependencies\<close>








subsection \<open>The tree traversal\<close>

lemma those_map_Some: "those (map (\<lambda>x. Some (f x)) xs) = Some (map f xs)"
  by (induction xs) simp_all

lemma unvisited_decreases:
  assumes "map_of all_elements element_id = Some element" "element_id \<notin> visited"
  shows "card (fst ` set all_elements - insert element_id visited)
           < card (fst ` set all_elements - visited)"
proof -
  from assms(1) have "element_id \<in> fst ` set all_elements"
    by (metis map_of_SomeD fst_conv image_eqI)
  with assms(2) have "fst ` set all_elements - insert element_id visited
                        \<subset> fst ` set all_elements - visited"
    by auto
  then show ?thesis by (intro psubset_card_mono) auto
qed

lemma build_tree_bounded_enough:
  "card (fst ` set all_elements - visited) < frames \<Longrightarrow>
   build_tree_bounded frames all_elements max_depth element_id depth visited
     = Some (build_tree_recursive all_elements max_depth element_id depth visited)"
proof (induction frames arbitrary: element_id depth visited)
  case 0
  then show ?case by simp
next
  case (Suc frames)
  show ?case
  proof (cases "int depth > max_depth \<or> element_id \<in> visited")
    case True
    then show ?thesis
      by (simp add: build_tree_recursive.simps [of _ _ element_id depth visited])
  next
    case False
    show ?thesis
    proof (cases "map_of all_elements element_id")
      case None
      with False show ?thesis
        by (simp add: build_tree_recursive.simps [of _ _ element_id depth visited])
    next
      case (Some element)
      from False have "element_id \<notin> visited" by simp
      from unvisited_decreases [OF Some this] Suc.prems
      have "card (fst ` set all_elements - insert element_id visited) < frames" by simp
      from Suc.IH [OF this]
      have "map (\<lambda>dep_id. build_tree_bounded frames all_elements max_depth dep_id (Suc depth)
                    (insert element_id visited)) (dependencies element)
            = map (\<lambda>dep_id. Some (build_tree_recursive all_elements max_depth dep_id (Suc depth)
                    (insert element_id visited))) (dependencies element)"
        by simp
      then have "those (map (\<lambda>dep_id. build_tree_bounded frames all_elements max_depth dep_id
                    (Suc depth) (insert element_id visited)) (dependencies element))
            = Some (map (\<lambda>dep_id. build_tree_recursive all_elements max_depth dep_id (Suc depth)
                    (insert element_id visited)) (dependencies element))"
        by (simp only: those_map_Some)
      with False Some show ?thesis
        by (simp add: build_tree_recursive.simps [of _ _ element_id depth visited])
    qed
  qed
qed

lemma card_unvisited_le: "card (fst ` set all_elements - visited) \<le> length all_elements"
proof -
  have "card (fst ` set all_elements - visited) \<le> card (fst ` set all_elements)"
    by (intro card_mono) auto
  also have "\<dots> \<le> card (set all_elements)" by (rule card_image_le) simp
  also have "\<dots> \<le> length all_elements" by (rule card_length)
  finally show ?thesis .
qed




subsection \<open>The three modes of \<open>edit_dependencies\<close>\<close>

lemma add_deps_unseen:
  "add_deps new_deps current = current @ unseen_in_order (set current) new_deps"
  by (induction new_deps arbitrary: current) simp_all

lemma set_unseen_in_order: "set (unseen_in_order seen ds) = set ds - seen"
  by (induction ds arbitrary: seen) auto

lemma distinct_unseen_in_order: "distinct (unseen_in_order seen ds)"
  by (induction ds arbitrary: seen) (auto simp: set_unseen_in_order)

lemma subseq_unseen_in_order: "subseq (unseen_in_order seen ds) ds"
  by (induction ds arbitrary: seen) auto

lemma remove_deps_fold: "remove_deps new_deps current = fold remove1 new_deps current"
  by (induction new_deps arbitrary: current) (simp_all add: remove1_idem)

lemma subseq_remove1: "subseq (remove1 x xs) xs"
  by (induction xs) auto

lemma subseq_remove_deps: "subseq (remove_deps new_deps current) current"
proof (induction new_deps arbitrary: current)
  case Nil
  then show ?case by simp
next
  case (Cons d ds)
  have "subseq (remove_deps ds (remove1 d current)) (remove1 d current)" by (rule Cons.IH)
  also have "subseq (remove1 d current) current" by (rule subseq_remove1)
  finally show ?case using Cons.IH [of current] by simp
qed

lemma count_list_remove1:
  "count_list (remove1 d xs) x = count_list xs x - (if x = d then 1 else 0)"
  by (induction xs) auto

lemma count_list_remove_deps:
  "count_list (remove_deps new_deps current) x = count_list current x - count_list new_deps x"
  by (induction new_deps arbitrary: current) (auto simp: count_list_remove1)

lemma remove_deps_distinct:
  "distinct current \<Longrightarrow> remove_deps new_deps current = set_difference current new_deps"
proof (induction new_deps arbitrary: current)
  case Nil
  then show ?case by (simp add: set_difference_def)
next
  case (Cons d ds)
  from Cons.prems have r: "remove1 d current = filter (\<lambda>x. x \<noteq> d) current"
    by (simp add: distinct_remove1_removeAll removeAll_filter_not_eq) metis
  have "remove_deps (d # ds) current = remove_deps ds (remove1 d current)"
    by (simp add: remove1_idem)
  also have "\<dots> = set_difference (remove1 d current) ds"
    using Cons.prems by (intro Cons.IH) simp
  also have "\<dots> = set_difference current (d # ds)"
    by (auto simp: set_difference_def r intro: filter_cong)
  finally show ?case .
qed

lemma save_and_relink_dependencies:
  assumes wf: "wf_store kb" and id: "ce_id element = element_id"
  shows "\<exists>r kb'. save_and_relink element_id operation original_deps element kb = (Inr r, kb') \<and>
           original_dependencies r = original_deps \<and>
           new_dependencies r = dependencies element \<and>
           map_option dependencies (load_element kb' element_id) = Some (dependencies element)"
proof -
  let ?kb1 = "snd (save_element element kb)"
  let ?kb2 = "remove_from_dependents element_id (dependencies element) original_deps ?kb1"
  let ?kb3 = "snd (snd (add_to_dependents element_id (dependencies element) ?kb2))"
  have wf1: "wf_store ?kb1" using wf by (rule wf_store_save)
  have wf2: "wf_store ?kb2" using wf1 by (rule wf_remove_from_dependents)
  have "load_element ?kb1 element_id = Some (fst (save_element element kb))"
    by (simp add: load_save_element id)
  then have "map_option dependencies (load_element ?kb1 element_id) = Some (dependencies element)"
    by simp
  then have "map_option dependencies (load_element ?kb2 element_id) = Some (dependencies element)"
    by (simp add: stable_remove_from_dependents [OF wf1])
  then have "map_option dependencies (load_element ?kb3 element_id) = Some (dependencies element)"
    by (simp add: stable_add_to_dependents [OF wf2])
  then show ?thesis
    by (simp add: save_and_relink_def Let_def case_prod_beta)
qed

subsection \<open>The scan of \<open>remove_element\<close>\<close>



lemma wf_clean_one: "wf_store kb \<Longrightarrow> wf_store (snd (clean_one element_id other kb))"
  by (simp add: clean_one_def case_prod_beta Let_def wf_store_save)




lemma wf_clean_references:
  "wf_store kb \<Longrightarrow> wf_store (snd (clean_references element_id es kb))"
  by (induction es arbitrary: kb) (simp_all add: case_prod_beta Let_def wf_clean_one)





subsection \<open>Adding an element that is already referenced\<close>

text \<open>
  When a stored element lists an id that has no record, adding that id leaves a store
  that is not reciprocal, whatever the other arguments are: the new record gets no
  dependents but, possibly, itself.
\<close>

lemma reciprocalD:
  assumes "reciprocal kb" "load_element kb a = Some ea" "load_element kb b = Some eb"
  shows "(b \<in> set (dependencies ea)) = (a \<in> set (dependents eb))"
proof -
  from assms(2,3) have "(a, ea) \<in> set (elements_dir kb)" "(b, eb) \<in> set (elements_dir kb)"
    by (auto simp: load_element_def dest: map_of_SomeD)
  with assms(1) show ?thesis
    unfolding reciprocal_def list_all_iff by fastforce
qed

lemma add_referenced_breaks_reciprocity:
  assumes wf: "wf_store kb" and fresh: "load_element kb element_id = None"
    and ref: "load_element kb a = Some ea" "element_id \<in> set (dependencies ea)"
  shows "\<not> reciprocal (snd (add_code_element element_id element_type code_arg description_arg
                               dependencies_arg source_file_arg line_range_arg kb))"
proof
  let ?deps = "deps_or_empty dependencies_arg"
  let ?new = "new_element element_id element_type code_arg description_arg ?deps
                source_file_arg line_range_arg"
  let ?kb1 = "snd (save_element ?new kb)"
  let ?kb' = "snd (snd (add_to_dependents element_id ?deps ?kb1))"
  assume "reciprocal (snd (add_code_element element_id element_type code_arg description_arg
                               dependencies_arg source_file_arg line_range_arg kb))"
  then have rec: "reciprocal ?kb'"
    by (simp add: add_code_element_fresh [OF fresh] Let_def)
  have wf1: "wf_store ?kb1" using wf by (rule wf_store_save)
  from fresh ref(1) have other: "a \<noteq> element_id" by auto
  then have "load_element ?kb1 a = Some ea" using ref(1) by (simp add: load_save_element)
  then have "map_option dependencies (load_element ?kb' a) = Some (dependencies ea)"
    by (simp add: stable_add_to_dependents [OF wf1])
  then obtain ea' where a': "load_element ?kb' a = Some ea'"
    and deps': "dependencies ea' = dependencies ea" by auto
  have "map_option dependents (load_element ?kb' element_id)
          = Some (if element_id \<in> set ?deps then [element_id] else [])"
    by (simp add: dependents_add_to_dependents [OF wf1] load_save_element)
  then obtain ex where x': "load_element ?kb' element_id = Some ex"
    and depts': "dependents ex = (if element_id \<in> set ?deps then [element_id] else [])" by auto
  from reciprocalD [OF rec a' x'] ref(2) deps' depts' other show False
    by (simp split: if_splits)
qed

subsection \<open>The tools keep the store well formed\<close>

text \<open>
  The empty directory is well formed and every tool returns a well-formed store when it
  is given one, so the stores the server can reach from an empty directory are well formed.
\<close>

lemma list_all_delete: "list_all P al \<Longrightarrow> list_all P (AList.delete k al)"
  by (induction al) auto

lemma wf_store_unlink:
  "wf_store kb \<Longrightarrow> wf_store (kb\<lparr>elements_dir := AList.delete k (elements_dir kb)\<rparr>)"
  by (simp add: wf_store_def distinct_delete list_all_delete)

lemma wf_store_empty_kb: "wf_store empty_kb"
  by (simp add: wf_store_def empty_kb_def)

lemma wf_store_add_code_element:
  "wf_store kb \<Longrightarrow>
   wf_store (snd (add_code_element element_id element_type code_arg description_arg
                    dependencies_arg source_file_arg line_range_arg kb))"
  by (simp add: add_code_element_def case_prod_beta Let_def wf_store_save wf_add_to_dependents
           split: option.splits)

lemma wf_store_edit_dependencies:
  "wf_store kb \<Longrightarrow> wf_store (snd (edit_dependencies element_id dependencies_arg operation kb))"
  by (simp add: edit_dependencies_def save_and_relink_def case_prod_beta Let_def wf_store_save
        wf_add_to_dependents wf_remove_from_dependents split: option.splits)

lemma wf_store_update_code_element:
  "wf_store kb \<Longrightarrow>
   wf_store (snd (update_code_element element_id code_arg description_arg dependencies_arg
                    source_file_arg line_range_arg kb))"
  by (simp add: update_code_element_def case_prod_beta Let_def wf_store_save
        wf_add_to_dependents wf_remove_from_dependents split: option.splits)

lemma wf_store_remove_element:
  "wf_store kb \<Longrightarrow> wf_store (snd (remove_element element_id kb))"
  by (simp add: remove_element_def case_prod_beta Let_def wf_store_unlink wf_clean_references
           split: option.splits)

subsection \<open>Blank fields in \<open>update_code_element\<close>\<close>

text \<open>
  A string of whitespace strips to the empty string. When all four strings are blank,
  the call without a dependency list fails before anything is written, and the call
  with one changes the dependency list only.
\<close>

lemma update_nothing_provided:
  assumes "load_element kb element_id = Some element"
    and "strip code_arg = []" "strip description_arg = []"
    and "strip source_file_arg = []" "strip line_range_arg = []"
  shows "update_code_element element_id code_arg description_arg None source_file_arg
           line_range_arg kb = (Inl NoFieldsProvided, kb)"
  using assms by (simp add: update_code_element_def)

lemma strip_blank: "list_all isspace s \<Longrightarrow> strip s = []"
  by (auto simp: strip_def list_all_iff dest: set_dropWhileD)

lemma update_blank_fields_kept:
  assumes wf: "wf_store kb" and stored: "load_element kb element_id = Some element"
    and blank: "strip code_arg = []" "strip description_arg = []"
      "strip source_file_arg = []" "strip line_range_arg = []"
  shows "\<exists>r kb'. update_code_element element_id code_arg description_arg (Some given)
                    source_file_arg line_range_arg kb = (Inr r, kb') \<and>
           updated_fields r = [''dependencies''] \<and>
           load_element kb' element_id = Some (updated_element r) \<and>
           code (updated_element r) = code element \<and>
           description (updated_element r) = description element \<and>
           source_file (updated_element r) = source_file element \<and>
           line_range (updated_element r) = line_range element \<and>
           dependencies (updated_element r) = as_list given"
proof -
  from wf stored have "ce_id element = element_id" by (rule wf_store_id)
  then show ?thesis
    using stored blank
    by (simp add: update_code_element_def case_prod_beta Let_def load_save_element)
qed

subsection \<open>Add on an existing id\<close>

text \<open>
  C2. A second \<open>add_code_element\<close> with an id that has a record fails with the
  already-exists result, which names the stored record, and returns the state it was
  given: no file is written and no clock reading is consumed, so the first record keeps
  its code, description, dependencies, dependents and timestamps.
\<close>

theorem add_existing_fails_unchanged:
  assumes "load_element kb element_id = Some existing"
  shows "add_code_element element_id element_type code_arg description_arg dependencies_arg
           source_file_arg line_range_arg kb
         = (Inl (AlreadyExists (ce_id existing) (ce_type existing) (description existing)), kb)"
  using assms by (simp add: add_code_element_def)

theorem add_existing_fails_unchanged_witness:
  "load_element (store_of [elem ''x'' [] []]) ''x'' = Some (elem ''x'' [] []) \<and>
   add_code_element ''x'' ''module'' ''other'' ''again'' (Some (DepList [''y''])) [] []
       (store_of [elem ''x'' [] []])
     = (Inl (AlreadyExists ''x'' ''function'' ''d''), store_of [elem ''x'' [] []])"
proof -
  have h: "load_element (store_of [elem ''x'' [] []]) ''x'' = Some (elem ''x'' [] [])"
    by (simp add: load_element_def store_of_def elem_def)
  from add_existing_fails_unchanged [OF h] h show ?thesis
    by (simp add: elem_def)
qed

subsection \<open>Reciprocity and elements added after they are referenced\<close>

text \<open>
  C1. Reciprocity after every successful operation, and in particular after adding an
  element that a stored element already lists as a dependency. Evaluated on the empty
  store: \<open>a\<close> is added with the dependency \<open>ghost\<close>, which has no record, and the store is
  reciprocal; then \<open>ghost\<close> is added, successfully. Afterwards \<open>a\<close> still lists \<open>ghost\<close>,
  \<open>ghost\<close> has a record, and the dependents of \<open>ghost\<close> are empty: \<open>add_code_element\<close>
  creates the record with \<open>dependents=[]\<close> and updates the dependents of the new
  element's dependencies only.
\<close>

theorem add_after_reference_not_reciprocal:
  "wf_store kb_a \<and> reciprocal kb_a \<and>
   \<not> isl (fst (add_code_element ''ghost'' ''function'' ''g()'' ''second'' None [] [] kb_a)) \<and>
   map_option dependencies (load_element kb_a_ghost ''a'') = Some [''ghost''] \<and>
   map_option dependents (load_element kb_a_ghost ''ghost'') = Some [] \<and>
   \<not> reciprocal kb_a_ghost"
  by (simp add: kb_a_ghost_def kb_a_def kb_defs)

subsection \<open>Dependencies without a record\<close>



subsection \<open>An element that depends on itself\<close>



subsection \<open>The modes of \<open>edit_dependencies\<close>\<close>

text \<open>
  C3 as stated fails for mode \<open>remove\<close>: \<open>a\<close> is added with the dependencies
  \<open>x, x\<close>; removing \<open>x\<close> leaves one \<open>x\<close> in the list, where the set difference is empty.
\<close>

theorem edit_remove_keeps_second_occurrence:
  "map_option dependencies (load_element kb_twice_x ''a'') = Some [''x'', ''x''] \<and>
   \<not> isl (fst (edit_dependencies ''a'' (DepList [''x'']) ''remove'' kb_twice_x)) \<and>
   map_option dependencies
     (load_element (snd (edit_dependencies ''a'' (DepList [''x'']) ''remove'' kb_twice_x)) ''a'')
     = Some [''x''] \<and>
   set_difference [''x'', ''x''] [''x''] = []"
  by (simp add: kb_twice_x_def kb_defs set_difference_def)

text \<open>
  C3, amended. For an element with a record and an input list \<open>new_deps\<close>: mode
  \<open>replace\<close> makes the stored dependency list \<open>new_deps\<close>; mode \<open>add\<close> keeps the list and
  appends the ids of the input that it does not contain, in input order and each once;
  mode \<open>remove\<close> deletes, for each id of the input in turn, the first occurrence of that
  id that is left, so that the order of the remaining entries is kept, an id that occurs
  \<open>m\<close> times in the list and \<open>n\<close> times in the input remains \<open>m - n\<close> times, and the
  result is the set difference when the list has no duplicates; any other mode fails
  with the invalid-operation result and leaves the state as it was.
\<close>

theorem edit_dependencies_modes:
  assumes wf: "wf_store kb" and stored: "load_element kb element_id = Some element"
  shows
    "(operation = ''replace'' \<longrightarrow>
        (\<exists>r kb'. edit_dependencies element_id (DepList new_deps) operation kb = (Inr r, kb') \<and>
           map_option dependencies (load_element kb' element_id) = Some new_deps)) \<and>
     (operation = ''add'' \<longrightarrow>
        (\<exists>r kb'. edit_dependencies element_id (DepList new_deps) operation kb = (Inr r, kb') \<and>
           map_option dependencies (load_element kb' element_id)
             = Some (dependencies element @
                     unseen_in_order (set (dependencies element)) new_deps))) \<and>
     (operation = ''remove'' \<longrightarrow>
        (\<exists>r kb'. edit_dependencies element_id (DepList new_deps) operation kb = (Inr r, kb') \<and>
           map_option dependencies (load_element kb' element_id)
             = Some (fold remove1 new_deps (dependencies element)))) \<and>
     (operation \<noteq> ''replace'' \<and> operation \<noteq> ''add'' \<and> operation \<noteq> ''remove'' \<longrightarrow>
        edit_dependencies element_id (DepList new_deps) operation kb
          = (Inl (InvalidOperation operation), kb)) \<and>
     distinct (unseen_in_order (set (dependencies element)) new_deps) \<and>
     set (unseen_in_order (set (dependencies element)) new_deps)
       = set new_deps - set (dependencies element) \<and>
     subseq (unseen_in_order (set (dependencies element)) new_deps) new_deps \<and>
     subseq (fold remove1 new_deps (dependencies element)) (dependencies element) \<and>
     (\<forall>d. count_list (fold remove1 new_deps (dependencies element)) d
            = count_list (dependencies element) d - count_list new_deps d) \<and>
     (distinct (dependencies element) \<longrightarrow>
        fold remove1 new_deps (dependencies element)
          = set_difference (dependencies element) new_deps)"
proof -
  from wf stored have id: "ce_id element = element_id" by (rule wf_store_id)
  have rel: "\<exists>r kb'. save_and_relink element_id mode (dependencies element)
                        (element\<lparr>dependencies := ds\<rparr>) kb = (Inr r, kb') \<and>
               map_option dependencies (load_element kb' element_id) = Some ds" for ds mode
    using save_and_relink_dependencies [OF wf, of "element\<lparr>dependencies := ds\<rparr>" element_id
        mode "dependencies element"] id
    by auto
  show ?thesis
    using rel [of "''replace''" new_deps]
      rel [of "''add''" "add_deps new_deps (dependencies element)"]
      rel [of "''remove''" "remove_deps new_deps (dependencies element)"]
      subseq_remove_deps [of new_deps "dependencies element"]
      remove_deps_distinct [of "dependencies element" new_deps]
    by (simp add: edit_dependencies_def stored Let_def add_deps_unseen
          distinct_unseen_in_order set_unseen_in_order subseq_unseen_in_order
          count_list_remove_deps [symmetric]
          remove_deps_fold [symmetric])
qed

theorem edit_dependencies_modes_witness:
  "wf_store (store_of [elem ''a'' [''x'', ''y''] []]) \<and>
   load_element (store_of [elem ''a'' [''x'', ''y''] []]) ''a''
     = Some (elem ''a'' [''x'', ''y''] []) \<and>
   (\<exists>r kb'. edit_dependencies ''a'' (DepList [''y'', ''z'', ''z'']) ''add''
               (store_of [elem ''a'' [''x'', ''y''] []]) = (Inr r, kb') \<and>
       map_option dependencies (load_element kb' ''a'') = Some [''x'', ''y'', ''z'']) \<and>
   (\<exists>r kb'. edit_dependencies ''a'' (DepList [''x'']) ''remove''
               (store_of [elem ''a'' [''x'', ''y''] []]) = (Inr r, kb') \<and>
       map_option dependencies (load_element kb' ''a'') = Some [''y'']) \<and>
   (\<exists>r kb'. edit_dependencies ''a'' (DepList [''q'']) ''replace''
               (store_of [elem ''a'' [''x'', ''y''] []]) = (Inr r, kb') \<and>
       map_option dependencies (load_element kb' ''a'') = Some [''q'']) \<and>
   edit_dependencies ''a'' (DepList [''q'']) ''swap'' (store_of [elem ''a'' [''x'', ''y''] []])
     = (Inl (InvalidOperation ''swap''), store_of [elem ''a'' [''x'', ''y''] []])"
proof -
  let ?kb = "store_of [elem ''a'' [''x'', ''y''] []]"
  have wf: "wf_store ?kb" by (simp add: wf_store_def store_of_def elem_def)
  have stored: "load_element ?kb ''a'' = Some (elem ''a'' [''x'', ''y''] [])"
    by (simp add: load_element_def store_of_def elem_def)
  have deps: "dependencies (elem ''a'' [''x'', ''y''] []) = [''x'', ''y'']"
    by (simp add: elem_def)
  note modes = edit_dependencies_modes [OF wf stored]
  have add: "\<exists>r kb'. edit_dependencies ''a'' (DepList [''y'', ''z'', ''z'']) ''add'' ?kb
                 = (Inr r, kb') \<and>
               map_option dependencies (load_element kb' ''a'') = Some [''x'', ''y'', ''z'']"
    using modes [of "''add''" "[''y'', ''z'', ''z'']"] by (simp add: deps)
  have remove: "\<exists>r kb'. edit_dependencies ''a'' (DepList [''x'']) ''remove'' ?kb
                 = (Inr r, kb') \<and>
               map_option dependencies (load_element kb' ''a'') = Some [''y'']"
    using modes [of "''remove''" "[''x'']"] by (simp add: deps)
  have replace: "\<exists>r kb'. edit_dependencies ''a'' (DepList [''q'']) ''replace'' ?kb
                 = (Inr r, kb') \<and>
               map_option dependencies (load_element kb' ''a'') = Some [''q'']"
    using modes [of "''replace''" "[''q'']"] by simp
  have other: "edit_dependencies ''a'' (DepList [''q'']) ''swap'' ?kb
                 = (Inl (InvalidOperation ''swap''), ?kb)"
    using modes [of "''swap''" "[''q'']"] by simp
  from wf stored add remove replace other show ?thesis by blast
qed

subsection \<open>A root without a record\<close>




subsection \<open>Termination of the tree traversal\<close>

text \<open>
  C5. \<open>build_tree_recursive\<close> is a total function: its recursion is well-founded because
  every call that goes on adds a stored id to the visited set. Stated with the nesting
  of calls counted: for every dictionary of elements (cyclic or not), every
  \<open>max_depth\<close> and every start, the traversal returns without nesting calls deeper than
  the number of elements plus one. A call returns no lines when the depth exceeds
  \<open>max_depth\<close> or the id is in the visited set; otherwise every dependency of the
  element is rendered with the visited set of the path to it, whatever was visited
  below the dependencies before it.
\<close>

theorem build_tree_recursive_terminates:
  "build_tree_bounded (Suc (length all_elements)) all_elements max_depth element_id depth visited
     = Some (build_tree_recursive all_elements max_depth element_id depth visited) \<and>
   (int depth > max_depth \<or> element_id \<in> visited \<longrightarrow>
      build_tree_recursive all_elements max_depth element_id depth visited = []) \<and>
   (\<not> (int depth > max_depth \<or> element_id \<in> visited) \<longrightarrow>
    map_of all_elements element_id = None \<longrightarrow>
      build_tree_recursive all_elements max_depth element_id depth visited
        = [indent depth @ branch @ element_id @ '' [MISSING]'']) \<and>
   (\<not> (int depth > max_depth \<or> element_id \<in> visited) \<longrightarrow>
    map_of all_elements element_id = Some element \<longrightarrow>
      build_tree_recursive all_elements max_depth element_id depth visited
        = (indent depth @ (if depth > 0 then branch else []) @ ce_id element @
             '' ['' @ ce_type element @ ''] - '' @ description element) #
          concat (map (\<lambda>dep_id. build_tree_recursive all_elements max_depth dep_id
                                   (Suc depth) (insert element_id visited))
                      (dependencies element)))"
proof -
  have "card (fst ` set all_elements - visited) < Suc (length all_elements)"
    using card_unvisited_le [of all_elements visited] by simp
  from build_tree_bounded_enough [OF this] show ?thesis
    by (simp add: build_tree_recursive.simps [of _ _ element_id depth visited])
qed

theorem build_tree_recursive_terminates_witness:
  "''a'' \<in> {''a'', ''b''} \<and>
   build_tree_recursive cycle_ab 10 ''a'' 2 {''a'', ''b''} = [] \<and>
   build_tree_bounded (Suc (length cycle_ab)) cycle_ab 10 ''a'' 0 {}
     = Some [''a [function] - d'', ''  '' @ branch @ ''b [function] - d''] \<and>
   int 0 \<le> 10 \<and> ''r'' \<notin> {} \<and>
   map_of diamond ''r'' = Some (elem ''r'' [''x'', ''y''] []) \<and>
   build_tree_recursive diamond 10 ''r'' 0 {} =
      ''r [function] - d'' # build_tree_recursive diamond 10 ''x'' 1 {''r''} @
                               build_tree_recursive diamond 10 ''y'' 1 {''r''} \<and>
   build_tree_recursive diamond 10 ''r'' 0 {}
     = [''r [function] - d'',
        ''  '' @ branch @ ''x [function] - d'', ''    '' @ branch @ ''z [function] - d'',
        ''  '' @ branch @ ''y [function] - d'', ''    '' @ branch @ ''z [function] - d'']"
proof -
  have visited: "''a'' \<in> {''a'', ''b''}" by simp
  have go: "\<not> (int 0 > 10 \<or> ''r'' \<in> {})" by simp
  have root: "map_of diamond ''r'' = Some (elem ''r'' [''x'', ''y''] [])"
    by (simp add: diamond_def)
  have deps: "dependencies (elem ''r'' [''x'', ''y''] []) = [''x'', ''y'']"
    by (simp add: elem_def)
  have lines: "build_tree_recursive cycle_ab 10 ''a'' 0 {}
                 = [''a [function] - d'', ''  '' @ branch @ ''b [function] - d'']"
    by (simp add: cycle_ab_def elem_def indent_def build_tree_recursive.simps)
  have tree: "build_tree_recursive diamond 10 ''r'' 0 {}
     = [''r [function] - d'',
        ''  '' @ branch @ ''x [function] - d'', ''    '' @ branch @ ''z [function] - d'',
        ''  '' @ branch @ ''y [function] - d'', ''    '' @ branch @ ''z [function] - d'']"
    by (simp add: diamond_def elem_def indent_def numeral_2_eq_2 build_tree_recursive.simps)
  from build_tree_recursive_terminates [of cycle_ab 10 "''a''" 2 "{''a'', ''b''}"] visited
  have stop: "build_tree_recursive cycle_ab 10 ''a'' 2 {''a'', ''b''} = []" by simp
  from build_tree_recursive_terminates [of cycle_ab 10 "''a''" 0 "{}"] lines
  have bounded: "build_tree_bounded (Suc (length cycle_ab)) cycle_ab 10 ''a'' 0 {}
     = Some [''a [function] - d'', ''  '' @ branch @ ''b [function] - d'']"
    by simp
  from build_tree_recursive_terminates [of diamond 10 "''r''" 0 "{}" "elem ''r'' [''x'', ''y''] []"]
    go root
  have "build_tree_recursive diamond 10 ''r'' 0 {} =
      ''r [function] - d'' # build_tree_recursive diamond 10 ''x'' 1 {''r''} @
                               build_tree_recursive diamond 10 ''y'' 1 {''r''}"
    by (simp add: deps) (simp add: elem_def indent_def)
  with visited stop bounded root tree show ?thesis by simp
qed

subsection \<open>Removing an element\<close>




subsection \<open>Updating the dependencies of an element that depends on itself\<close>

text \<open>
  C9. \<open>update_code_element\<close> with a dependency list is to maintain the dependents as
  \<open>edit_dependencies\<close> does in mode \<open>replace\<close>. Evaluated where the element is among its
  own old or new dependencies: \<open>x\<close> has no dependencies and is updated with the
  dependencies \<open>[x]\<close>; the call succeeds, \<open>x\<close> lists itself and its dependents are
  empty, where \<open>edit_dependencies\<close> leaves \<open>[x]\<close>. Conversely \<open>x\<close> depends on itself and
  is updated with the empty list; its dependents are still \<open>[x]\<close>, where
  \<open>edit_dependencies\<close> leaves none. The loops write the dependents of \<open>x\<close> to its file,
  and the final \<open>save_element\<close> overwrites the file with the element as it was loaded on
  entry.
\<close>

theorem update_self_dependency_loses_dependents:
  "map_option dependents (load_element kb_x ''x'') = Some [] \<and>
   \<not> isl (fst (update_code_element ''x'' [] [] (Some (DepList [''x''])) [] [] kb_x)) \<and>
   map_option dependencies
     (load_element (snd (update_code_element ''x'' [] [] (Some (DepList [''x''])) [] [] kb_x))
        ''x'') = Some [''x''] \<and>
   map_option dependents
     (load_element (snd (update_code_element ''x'' [] [] (Some (DepList [''x''])) [] [] kb_x))
        ''x'') = Some [] \<and>
   map_option dependents
     (load_element (snd (edit_dependencies ''x'' (DepList [''x'']) ''replace'' kb_x)) ''x'')
     = Some [''x''] \<and>
   map_option dependents (load_element kb_self ''x'') = Some [''x''] \<and>
   map_option dependencies
     (load_element (snd (update_code_element ''x'' [] [] (Some (DepList [])) [] [] kb_self))
        ''x'') = Some [] \<and>
   map_option dependents
     (load_element (snd (update_code_element ''x'' [] [] (Some (DepList [])) [] [] kb_self))
        ''x'') = Some [''x''] \<and>
   map_option dependents
     (load_element (snd (edit_dependencies ''x'' (DepList []) ''replace'' kb_self)) ''x'')
     = Some []"
  by (simp add: kb_x_def kb_self_def kb_defs)

end
